theory Spec2Isabelle
  imports Main "HOL-Library.Sublist" "HOL-Library.Word"
begin

section \<open>The lever-js request executor\<close>

text \<open>
  The repository holds one piece of behaviour: the closure \<open>call\<close> that
  \<open>createEndpoint(config)\<close> returns. It is present three times: in
  \<^verbatim>\<open>src/index.ts\<close>, in its compiled form \<^verbatim>\<open>dist/index.js\<close>, and in a third, later
  build (\<^verbatim>\<open>unnamed/part_002\<close>). Each is embedded separately below.

  A JavaScript string is modelled as a \<^typ>\<open>string\<close>: the list of its code units, each
  below 256. On such strings neither \<^verbatim>\<open>btoa\<close> nor \<^verbatim>\<open>encodeURIComponent\<close> raises.
  A JavaScript number is modelled as a signed word of 54 bits: the integers from
  \<open>- 2\<^sup>5\<^sup>3\<close> to \<open>2\<^sup>5\<^sup>3 - 1\<close>. Each of them is a double, and \<^verbatim>\<open>String\<close> and
  \<^verbatim>\<open>JSON.stringify\<close> print it in full decimal. Fractions and numbers of larger magnitude
  are not in the model: a numeral outside the range denotes, as in every word type, the
  number inside the range that it wraps to. The status of a response is an unsigned word
  of 16 bits, as the Fetch standard declares it.
\<close>

subsection \<open>Data model\<close>

datatype HttpMethod = GET | POST | PUT | DELETE

type_synonym number = "54 word"

text \<open>
  An optional property of an object: absent, present with the value \<^verbatim>\<open>undefined\<close>, or
  present with a value. Reading the property gives \<^verbatim>\<open>undefined\<close> in the first two
  cases; \<^verbatim>\<open>in\<close> and object spread tell them apart.
\<close>

datatype 'a optional = Absent | Undefined | Value 'a

text \<open>\<^verbatim>\<open>Omit<Endpoint<P, Q, B, R>, 'call'>\<close>: the argument of \<open>createEndpoint\<close>.\<close>

record Endpoint =
  "method" :: HttpMethod
  path :: string

text \<open>The values a JSON body is made of.\<close>

datatype jsonval =
    JNull
  | JBool bool
  | JNum number
  | JStr string
  | JArr "jsonval list"
  | JObj "(string \<times> jsonval) list"

text \<open>The values the query types of the repository hold, with \<^verbatim>\<open>undefined\<close> and \<^verbatim>\<open>null\<close>.\<close>

datatype prim = PUndefined | PNull | PStr string | PNum number | PBool bool

text \<open>
  The second argument of \<open>call\<close>. An object is the list of its entries in the order of
  \<^verbatim>\<open>Object.entries\<close>. The declared type requires \<open>params\<close> and leaves \<open>query\<close> and
  \<open>body\<close> optional.
\<close>

record Payload =
  params :: "(string \<times> string) list"
  query :: "(string \<times> prim) list optional"
  body :: "jsonval optional"

text \<open>
  \<^verbatim>\<open>RequestInit\<close>, the options object of \<^verbatim>\<open>fetch\<close>. The declared type of \<open>init\<close> omits
  \<open>body\<close> and \<open>method\<close>, which only an untyped caller can pass. Headers are a plain
  object of strings; the other options are kept as they are in \<open>r_rest\<close>.
\<close>

record RequestInit =
  r_method :: "string optional"
  r_headers :: "(string \<times> string) list optional"
  r_body :: "string optional"
  r_rest :: "(string \<times> string) list"

record Response =
  status :: "16 word"
  statusText :: string
  json :: "jsonval option"

datatype error =
    TypeError string
  | Error string
  | SyntaxError
  | TransportError string

text \<open>
  What a call can change: the descriptor object captured by the closure, and the
  requests handed to the transport so far.
\<close>

record World =
  descriptor :: Endpoint
  sent :: "(string \<times> RequestInit) list"

type_synonym transport = "string \<Rightarrow> RequestInit \<Rightarrow> error + Response"

definition ROOT :: string where
  "ROOT = ''https://api.lever.co/v1''"

definition method_name :: "HttpMethod \<Rightarrow> string" where
  "method_name m = (case m of GET \<Rightarrow> ''GET'' | POST \<Rightarrow> ''POST'' | PUT \<Rightarrow> ''PUT'' | DELETE \<Rightarrow> ''DELETE'')"

subsection \<open>Platform functions\<close>

text \<open>\<^verbatim>\<open>String(v)\<close> on a number, and a number inside a template literal.\<close>

fun digits :: "nat \<Rightarrow> string" where
  "digits n =
     (if n < 10 then [''0123456789'' ! n]
      else digits (n div 10) @ [''0123456789'' ! (n mod 10)])"

declare digits.simps [simp del]

definition String_number :: "number \<Rightarrow> string" where
  "String_number n =
     (if sint n < 0 then CHR ''-'' # digits (nat (- sint n)) else digits (nat (sint n)))"

definition js_String :: "prim \<Rightarrow> string" where
  "js_String v =
     (case v of
        PUndefined \<Rightarrow> ''undefined''
      | PNull \<Rightarrow> ''null''
      | PStr s \<Rightarrow> s
      | PNum n \<Rightarrow> String_number n
      | PBool b \<Rightarrow> (if b then ''true'' else ''false''))"

text \<open>Percent-encoding of the UTF-8 bytes of a code unit below 256.\<close>

definition hexdigit :: "nat \<Rightarrow> char" where
  "hexdigit n = ''0123456789ABCDEF'' ! n"

definition pct_byte :: "nat \<Rightarrow> string" where
  "pct_byte b = [CHR ''%'', hexdigit (b div 16), hexdigit (b mod 16)]"

definition utf8 :: "char \<Rightarrow> nat list" where
  "utf8 c = (let n = of_char c in if n < 128 then [n] else [192 + n div 64, 128 + n mod 64])"

definition alnum :: "char \<Rightarrow> bool" where
  "alnum c \<longleftrightarrow>
     c \<in> set ''ABCDEFGHIJKLMNOPQRSTUVWXYZabcdefghijklmnopqrstuvwxyz0123456789''"

definition uri_unreserved :: "char \<Rightarrow> bool" where
  "uri_unreserved c \<longleftrightarrow> alnum c \<or> c \<in> set [CHR ''-'', CHR ''_'', CHR ''.'', CHR ''!'', CHR ''~'', CHR ''*'', CHR 0x27, CHR ''('', CHR '')'']"

definition encodeURIComponent :: "string \<Rightarrow> string" where
  "encodeURIComponent s =
     concat (map (\<lambda>c. if uri_unreserved c then [c] else concat (map pct_byte (utf8 c))) s)"

text \<open>
  \<^verbatim>\<open>String.prototype.replace\<close> with a string pattern: the first occurrence is replaced,
  and the replacement text is expanded (\<^verbatim>\<open>$$\<close>, \<^verbatim>\<open>$&\<close>, \<^verbatim>\<open>$`\<close>, \<^verbatim>\<open>$'\<close>).
\<close>

fun split_at_first :: "string \<Rightarrow> string \<Rightarrow> (string \<times> string) option" where
  "split_at_first pat [] = (if pat = [] then Some ([], []) else None)"
| "split_at_first pat (c # cs) =
     (if prefix pat (c # cs) then Some ([], drop (length pat) (c # cs))
      else map_option (\<lambda>(b, a). (c # b, a)) (split_at_first pat cs))"

fun getSubstitution :: "string \<Rightarrow> string \<Rightarrow> string \<Rightarrow> string \<Rightarrow> string" where
  "getSubstitution m pre post [] = []"
| "getSubstitution m pre post [c] = [c]"
| "getSubstitution m pre post (c # d # r) =
     (if c = CHR ''$'' \<and> d = CHR ''$'' then CHR ''$'' # getSubstitution m pre post r
      else if c = CHR ''$'' \<and> d = CHR ''&'' then m @ getSubstitution m pre post r
      else if c = CHR ''$'' \<and> d = CHR 0x60 then pre @ getSubstitution m pre post r
      else if c = CHR ''$'' \<and> d = CHR 0x27 then post @ getSubstitution m pre post r
      else c # getSubstitution m pre post (d # r))"

definition replace :: "string \<Rightarrow> string \<Rightarrow> string \<Rightarrow> string" where
  "replace pat rep s =
     (case split_at_first pat s of
        None \<Rightarrow> s
      | Some (b, a) \<Rightarrow> b @ getSubstitution pat b a rep @ a)"

text \<open>
  \<^verbatim>\<open>new URLSearchParams(pairs).toString()\<close>: the application/x-www-form-urlencoded
  serialiser.
\<close>

definition form_safe :: "char \<Rightarrow> bool" where
  "form_safe c \<longleftrightarrow> alnum c \<or> c \<in> set [CHR ''*'', CHR ''-'', CHR ''.'', CHR ''_'']"

definition form_char :: "char \<Rightarrow> string" where
  "form_char c =
     (if c = CHR '' '' then ''+''
      else if form_safe c then [c]
      else concat (map pct_byte (utf8 c)))"

definition form_encode :: "string \<Rightarrow> string" where
  "form_encode s = concat (map form_char s)"

fun join :: "char \<Rightarrow> string list \<Rightarrow> string" where
  "join sep [] = []"
| "join sep [s] = s"
| "join sep (s # t # ss) = s @ sep # join sep (t # ss)"

definition URLSearchParams_toString :: "(string \<times> string) list \<Rightarrow> string" where
  "URLSearchParams_toString ps =
     join (CHR ''&'') (map (\<lambda>(k, v). form_encode k @ ''='' @ form_encode v) ps)"

text \<open>\<^verbatim>\<open>JSON.stringify\<close> on a JSON value.\<close>

definition lowhex :: "nat \<Rightarrow> char" where
  "lowhex n = ''0123456789abcdef'' ! n"

definition json_char :: "char \<Rightarrow> string" where
  "json_char c =
     (let n = (of_char c :: nat) in
      if n = 34 then [CHR 0x5C, CHR 0x22]
      else if n = 92 then [CHR 0x5C, CHR 0x5C]
      else if n = 8 then [CHR 0x5C, CHR ''b'']
      else if n = 9 then [CHR 0x5C, CHR ''t'']
      else if n = 10 then [CHR 0x5C, CHR ''n'']
      else if n = 12 then [CHR 0x5C, CHR ''f'']
      else if n = 13 then [CHR 0x5C, CHR ''r'']
      else if n < 32 then [CHR 0x5C, CHR ''u'', CHR ''0'', CHR ''0'', lowhex (n div 16), lowhex (n mod 16)]
      else [c])"

definition json_quote :: "string \<Rightarrow> string" where
  "json_quote s = CHR 0x22 # concat (map json_char s) @ [CHR 0x22]"

fun JSON_stringify :: "jsonval \<Rightarrow> string" where
  "JSON_stringify JNull = ''null''"
| "JSON_stringify (JBool b) = (if b then ''true'' else ''false'')"
| "JSON_stringify (JNum n) = String_number n"
| "JSON_stringify (JStr s) = json_quote s"
| "JSON_stringify (JArr xs) = ''['' @ join (CHR '','') (map JSON_stringify xs) @ '']''"
| "JSON_stringify (JObj kvs) =
     ''{'' @ join (CHR '','') (map (\<lambda>kv. json_quote (fst kv) @ '':'' @ JSON_stringify (snd kv)) kvs) @ ''}''"

text \<open>
  \<^verbatim>\<open>JSON.stringify(body)\<close> on what the variable \<open>body\<close> holds: \<^verbatim>\<open>undefined\<close> gives
  \<^verbatim>\<open>undefined\<close>, so that \<^verbatim>\<open>{ body: JSON.stringify(body) }\<close> always has the property.
\<close>

definition stringify :: "jsonval optional \<Rightarrow> string optional" where
  "stringify b = (case b of Value j \<Rightarrow> Value (JSON_stringify j) | _ \<Rightarrow> Undefined)"

text \<open>\<^verbatim>\<open>btoa\<close>: base64 of the code units, each one byte.\<close>

definition b64 :: "nat \<Rightarrow> char" where
  "b64 n = ''ABCDEFGHIJKLMNOPQRSTUVWXYZabcdefghijklmnopqrstuvwxyz0123456789+/'' ! n"

fun b64enc :: "nat list \<Rightarrow> string" where
  "b64enc [] = []"
| "b64enc [a] = [b64 (a div 4), b64 ((a mod 4) * 16), CHR ''='', CHR ''='']"
| "b64enc [a, b] =
     [b64 (a div 4), b64 ((a mod 4) * 16 + b div 16), b64 ((b mod 16) * 4), CHR ''='']"
| "b64enc (a # b # c # r) =
     [b64 (a div 4), b64 ((a mod 4) * 16 + b div 16), b64 ((b mod 16) * 4 + c div 64), b64 (c mod 64)]
     @ b64enc r"

definition btoa :: "string \<Rightarrow> string" where
  "btoa s = b64enc (map of_char s)"

text \<open>
  Object spread on a record of strings: each entry of the source is assigned in order;
  an existing key keeps its place and takes the new value.
\<close>

fun assign :: "string \<Rightarrow> string \<Rightarrow> (string \<times> string) list \<Rightarrow> (string \<times> string) list" where
  "assign k v [] = [(k, v)]"
| "assign k v ((k', v') # r) = (if k = k' then (k, v) # r else (k', v') # assign k v r)"

definition spread :: "(string \<times> string) list \<Rightarrow> (string \<times> string) list \<Rightarrow> (string \<times> string) list" where
  "spread target src = fold (\<lambda>(k, v). assign k v) src target"

text \<open>
  Object spread on the options object: a property that the source has wins, also when
  its value is \<^verbatim>\<open>undefined\<close>.
\<close>

definition empty_init :: RequestInit where
  "empty_init = \<lparr>r_method = Absent, r_headers = Absent, r_body = Absent, r_rest = []\<rparr>"

definition spread_prop :: "'a optional \<Rightarrow> 'a optional \<Rightarrow> 'a optional" where
  "spread_prop target src = (case src of Absent \<Rightarrow> target | Undefined \<Rightarrow> Undefined | Value v \<Rightarrow> Value v)"

definition spread_init :: "RequestInit \<Rightarrow> RequestInit \<Rightarrow> RequestInit" where
  "spread_init target src =
     \<lparr>r_method = spread_prop (r_method target) (r_method src),
      r_headers = spread_prop (r_headers target) (r_headers src),
      r_body = spread_prop (r_body target) (r_body src),
      r_rest = spread (r_rest target) (r_rest src)\<rparr>"

text \<open>\<^verbatim>\<open>res.ok\<close>, as the Fetch standard defines it.\<close>

definition ok :: "Response \<Rightarrow> bool" where
  "ok res \<longleftrightarrow> 200 \<le> unat (status res) \<and> unat (status res) \<le> 299"

subsection \<open>The executor of \<^verbatim>\<open>src/index.ts\<close>\<close>

text \<open>Step 1 of \<open>call\<close>: the loop over \<^verbatim>\<open>Object.entries(params)\<close>.\<close>

fun interpolate :: "string \<Rightarrow> (string \<times> string) list \<Rightarrow> string" where
  "interpolate url [] = url"
| "interpolate url ((key, val) # ps) =
     interpolate (replace (CHR '':'' # key) (encodeURIComponent val) url) ps"

text \<open>Step 2 after \<^verbatim>\<open>Object.entries\<close>: the filter, the map and the serialisation.\<close>

definition notNull :: "string \<times> prim \<Rightarrow> bool" where
  "notNull kv \<longleftrightarrow> snd kv \<noteq> PNull \<and> snd kv \<noteq> PUndefined"

definition build_qs :: "(string \<times> prim) list \<Rightarrow> string" where
  "build_qs entries =
     URLSearchParams_toString (map (\<lambda>(k, v). (k, js_String v)) (filter notNull entries))"

definition build_fullUrl :: "string \<Rightarrow> string \<Rightarrow> string" where
  "build_fullUrl url qs = ROOT @ url @ (if qs \<noteq> [] then ''?'' @ qs else [])"

text \<open>
  Step 3: the default headers and the merge with \<^verbatim>\<open>init.headers ?? {}\<close>.
\<close>

definition defaultHeaders :: "HttpMethod \<Rightarrow> string \<Rightarrow> (string \<times> string) list" where
  "defaultHeaders m apiKey =
     (let hs = [(''Authorization'', ''Basic '' @ btoa (apiKey @ '':''))]
      in if m \<noteq> GET then assign ''Content-Type'' ''application/json'' hs else hs)"

definition mergedHeaders :: "HttpMethod \<Rightarrow> string \<Rightarrow> RequestInit \<Rightarrow> (string \<times> string) list" where
  "mergedHeaders m apiKey init =
     spread (defaultHeaders m apiKey) (case r_headers init of Value h \<Rightarrow> h | _ \<Rightarrow> [])"

text \<open>
  Step 4: the transport is called once; the response decides the result. The error
  text is a parameter, the one place where the builds differ after transmission.
\<close>

definition perform :: "transport \<Rightarrow> string \<Rightarrow> RequestInit \<Rightarrow> (Response \<Rightarrow> string) \<Rightarrow> World \<Rightarrow> World \<times> (error + jsonval)" where
  "perform fetch fullUrl req message w =
     (let w' = w\<lparr>sent := sent w @ [(fullUrl, req)]\<rparr> in
      case fetch fullUrl req of
        Inl e \<Rightarrow> (w', Inl e)
      | Inr res \<Rightarrow>
          if \<not> ok res then (w', Inl (Error (message res)))
          else (case json res of
                  None \<Rightarrow> (w', Inl SyntaxError)
                | Some j \<Rightarrow> (w', Inr j)))"

definition call :: "transport \<Rightarrow> string \<Rightarrow> Payload \<Rightarrow> RequestInit \<Rightarrow> World \<Rightarrow> World \<times> (error + jsonval)" where
  "call fetch apiKey data init w =
     (let config = descriptor w;
          url = interpolate (path config) (params data)
      in case query data of
           Value entries \<Rightarrow>
             (let qs = build_qs entries;
                  fullUrl = build_fullUrl url qs;
                  req = spread_init
                          (spread_init
                             \<lparr>r_method = Value (method_name (method config)),
                              r_headers = Value (mergedHeaders (method config) apiKey init),
                              r_body = Absent, r_rest = []\<rparr>
                             (if method config = GET then empty_init
                              else empty_init\<lparr>r_body := stringify (body data)\<rparr>))
                          init
              in perform fetch fullUrl req
                   (\<lambda>res. ''HTTP '' @ digits (unat (status res)) @ '': '' @ statusText res) w)
         | _ \<Rightarrow> (w, Inl (TypeError ''Cannot convert undefined or null to object'')))"

subsection \<open>The executor of \<^verbatim>\<open>dist/index.js\<close>\<close>

definition call_dist :: "transport \<Rightarrow> string \<Rightarrow> Payload \<Rightarrow> RequestInit \<Rightarrow> World \<Rightarrow> World \<times> (error + jsonval)" where
  "call_dist fetch apiKey data init w =
     (let config = descriptor w;
          url = interpolate (path config) (params data)
      in case query data of
           Value entries \<Rightarrow>
             (let qs = build_qs entries;
                  fullUrl = build_fullUrl url qs;
                  req = spread_init
                          (spread_init
                             \<lparr>r_method = Value (method_name (method config)),
                              r_headers = Value (mergedHeaders (method config) apiKey init),
                              r_body = Absent, r_rest = []\<rparr>
                             (if method config = GET then empty_init
                              else empty_init\<lparr>r_body := stringify (body data)\<rparr>))
                          init
              in perform fetch fullUrl req
                   (\<lambda>res. ''HTTP '' @ digits (unat (status res)) @ '': '' @ statusText res) w)
         | _ \<Rightarrow> (w, Inl (TypeError ''Cannot convert undefined or null to object'')))"

subsection \<open>The executor of the later build, \<^verbatim>\<open>unnamed/part_002\<close>\<close>

text \<open>
  Here \<^verbatim>\<open>'query' in data ? (data.query ?? []) : []\<close> replaces \<^verbatim>\<open>query\<close>, the
  \<open>body\<close> property is left out when \<^verbatim>\<open>'body' in data\<close> is false, and the error text starts
  with the method and the URL. \<^verbatim>\<open>'params' in data\<close> holds for every payload of the declared
  type.
\<close>

definition call_part_002 :: "transport \<Rightarrow> string \<Rightarrow> Payload \<Rightarrow> RequestInit \<Rightarrow> World \<Rightarrow> World \<times> (error + jsonval)" where
  "call_part_002 fetch apiKey data init w =
     (let config = descriptor w;
          url = interpolate (path config) (params data);
          qs = build_qs (case query data of Value entries \<Rightarrow> entries | _ \<Rightarrow> []);
          fullUrl = build_fullUrl url qs;
          req = spread_init
                  (spread_init
                     \<lparr>r_method = Value (method_name (method config)),
                      r_headers = Value (mergedHeaders (method config) apiKey init),
                      r_body = Absent, r_rest = []\<rparr>
                     (if method config = GET \<or> body data = Absent then empty_init
                      else empty_init\<lparr>r_body := stringify (body data)\<rparr>))
                  init
      in perform fetch fullUrl req
           (\<lambda>res. method_name (method config) @ '' '' @ fullUrl @ '' HTTP ''
                   @ digits (unat (status res)) @ '': '' @ statusText res) w)"

subsection \<open>Names for what step 4 hands to the transport, and sample inputs\<close>

text \<open>The options object that \<open>call\<close> of \<^verbatim>\<open>src/index.ts\<close> passes to \<^verbatim>\<open>fetch\<close>.\<close>

definition request :: "Endpoint \<Rightarrow> string \<Rightarrow> Payload \<Rightarrow> RequestInit \<Rightarrow> RequestInit" where
  "request config apiKey data init =
     spread_init
       (spread_init
          \<lparr>r_method = Value (method_name (method config)),
           r_headers = Value (mergedHeaders (method config) apiKey init),
           r_body = Absent, r_rest = []\<rparr>
          (if method config = GET then empty_init
           else empty_init\<lparr>r_body := stringify (body data)\<rparr>))
       init"

text \<open>Some of the endpoints that \<^verbatim>\<open>src/index.ts\<close> declares.\<close>

definition getTags :: Endpoint where
  "getTags = \<lparr>method = GET, path = ''/tags''\<rparr>"

definition retrieveApplication :: Endpoint where
  "retrieveApplication =
     \<lparr>method = GET, path = ''/opportunities/:opportunity/applications/:application''\<rparr>"

definition listApplications :: Endpoint where
  "listApplications = \<lparr>method = GET, path = ''/opportunities/:opportunity/applications''\<rparr>"

definition updateInterview :: Endpoint where
  "updateInterview =
     \<lparr>method = PUT, path = ''/opportunities/:opportunity/interviews/:interview''\<rparr>"

definition addOpportunityTags :: Endpoint where
  "addOpportunityTags = \<lparr>method = POST, path = ''/opportunities/:opportunity/addTags''\<rparr>"

text \<open>A transport that answers every request with the same response.\<close>

definition answer :: "16 word \<Rightarrow> string \<Rightarrow> jsonval option \<Rightarrow> transport" where
  "answer st txt j url req = Inr \<lparr>status = st, statusText = txt, json = j\<rparr>"

text \<open>The world right after \<open>createEndpoint(config)\<close>: nothing sent yet.\<close>

definition fresh :: "Endpoint \<Rightarrow> World" where
  "fresh config = \<lparr>descriptor = config, sent = []\<rparr>"

definition tagsBody :: jsonval where
  "tagsBody = JObj [(''tags'', JArr [JStr ''a'', JStr ''b''])]"

text \<open>The JSON text \<^verbatim>\<open>{"tags":["a","b"]}\<close>.\<close>

definition tagsText :: string where
  "tagsText = ''{'' @ [CHR 0x22] @ ''tags'' @ [CHR 0x22] @ '':['' @ [CHR 0x22] @ ''a'' @ [CHR 0x22]
     @ '','' @ [CHR 0x22] @ ''b'' @ [CHR 0x22] @ '']}''"

definition interviewBody :: jsonval where
  "interviewBody = JObj [(''subject'', JStr ''Sync''), (''duration'', JNum 30)]"

text \<open>The JSON text \<^verbatim>\<open>{"subject":"Sync","duration":30}\<close>.\<close>

definition interviewText :: string where
  "interviewText = ''{'' @ [CHR 0x22] @ ''subject'' @ [CHR 0x22] @ '':'' @ [CHR 0x22] @ ''Sync''
     @ [CHR 0x22] @ '','' @ [CHR 0x22] @ ''duration'' @ [CHR 0x22] @ '':30}''"

subsection \<open>Vocabulary of the claims\<close>

text \<open>
  The source has no notion of a placeholder; the claims do. A path template is read as
  its segments between \<^verbatim>\<open>/\<close>; a placeholder is a segment that starts with \<^verbatim>\<open>:\<close>, and its
  name is the rest of the segment. \<open>substitute\<close> is the substitution the claims describe:
  every placeholder that has a value is replaced, at once, by the encoded value.
\<close>

fun split_on :: "char \<Rightarrow> string \<Rightarrow> string list" where
  "split_on sep [] = [[]]"
| "split_on sep (c # cs) =
     (if c = sep then [] # split_on sep cs
      else (case split_on sep cs of s # ss \<Rightarrow> (c # s) # ss | [] \<Rightarrow> [[c]]))"

definition is_placeholder :: "string \<Rightarrow> bool" where
  "is_placeholder seg \<longleftrightarrow> (case seg of c # n \<Rightarrow> c = CHR '':'' | [] \<Rightarrow> False)"

definition placeholders :: "string \<Rightarrow> string list" where
  "placeholders p = map tl (filter is_placeholder (split_on (CHR ''/'') p))"

definition fill :: "(string \<rightharpoonup> string) \<Rightarrow> string \<Rightarrow> string" where
  "fill m seg =
     (if is_placeholder seg
      then (case m (tl seg) of Some v \<Rightarrow> encodeURIComponent v | None \<Rightarrow> seg)
      else seg)"

definition substitute :: "(string \<rightharpoonup> string) \<Rightarrow> string \<Rightarrow> string" where
  "substitute m p = join (CHR ''/'') (map (fill m) (split_on (CHR ''/'') p))"

text \<open>
  The reading of a query string, as its receiver does it: split at \<^verbatim>\<open>&\<close>, drop empty
  pieces, split each piece at its first \<^verbatim>\<open>=\<close>, turn \<^verbatim>\<open>+\<close> into a space and decode the
  percent-encoded UTF-8 bytes (of code units below 256).
\<close>

definition hexval :: "char \<Rightarrow> nat" where
  "hexval c = (let n = of_char c in if n \<le> 57 then n - 48 else n - 55)"

fun form_decode :: "string \<Rightarrow> string" where
  "form_decode [] = []"
| "form_decode (c # r) =
     (if c = CHR ''+'' then CHR '' '' # form_decode r
      else if c = CHR ''%'' then
        (case r of
           a # b # r' \<Rightarrow>
             (let n = 16 * hexval a + hexval b in
              if n < 128 then char_of n # form_decode r'
              else (case r' of
                      p # a' # b' # r'' \<Rightarrow>
                        char_of ((n - 192) * 64 + (16 * hexval a' + hexval b' - 128)) # form_decode r''
                    | _ \<Rightarrow> char_of n # form_decode r'))
         | _ \<Rightarrow> c # form_decode r)
      else c # form_decode r)"

definition break_eq :: "string \<Rightarrow> string \<times> string" where
  "break_eq s = (takeWhile (\<lambda>c. c \<noteq> CHR ''='') s, drop 1 (dropWhile (\<lambda>c. c \<noteq> CHR ''='') s))"

definition parse_qs :: "string \<Rightarrow> (string \<times> string) list" where
  "parse_qs s =
     map (\<lambda>p. (form_decode (fst (break_eq p)), form_decode (snd (break_eq p))))
       (filter (\<lambda>p. p \<noteq> []) (split_on (CHR ''&'') s))"

text \<open>The reading of base64 text, as \<^verbatim>\<open>atob\<close> does it.\<close>

definition b64val :: "char \<Rightarrow> nat" where
  "b64val c =
     (let n = of_char c in
      if 65 \<le> n \<and> n \<le> 90 then n - 65
      else if 97 \<le> n \<and> n \<le> 122 then n - 71
      else if 48 \<le> n \<and> n \<le> 57 then n + 4
      else if n = 43 then 62 else 63)"

fun b64dec :: "string \<Rightarrow> nat list" where
  "b64dec (a # b # c # d # r) =
     (let x = b64val a; y = b64val b; z = b64val c in
      if c = CHR ''='' then [x * 4 + y div 16]
      else if d = CHR ''='' then [x * 4 + y div 16, (y mod 16) * 16 + z div 4]
      else [x * 4 + y div 16, (y mod 16) * 16 + z div 4, (z mod 4) * 64 + b64val d] @ b64dec r)"
| "b64dec _ = []"

definition atob :: "string \<Rightarrow> string" where
  "atob s = map char_of (b64dec s)"

section \<open>Properties\<close>

subsection \<open>What one call sends and leaves behind\<close>

lemma sent_perform: "sent (fst (perform fetch u r msg w)) = sent w @ [(u, r)]"
  by (simp add: perform_def Let_def split: sum.split option.split)

lemma descriptor_perform: "descriptor (fst (perform fetch u r msg w)) = descriptor w"
  by (simp add: perform_def Let_def split: sum.split option.split)

lemma sent_call:
  "sent (fst (call fetch apiKey data init w)) =
     sent w @ (case query data of
                 Value entries \<Rightarrow>
                   [(build_fullUrl (interpolate (path (descriptor w)) (params data)) (build_qs entries),
                     request (descriptor w) apiKey data init)]
               | _ \<Rightarrow> [])"
  by (simp add: call_def Let_def sent_perform request_def split: optional.split)

lemma descriptor_call: "descriptor (fst (call fetch apiKey data init w)) = descriptor w"
  by (simp add: call_def Let_def descriptor_perform split: optional.split)

lemma snd_call_history:
  "descriptor w' = descriptor w \<Longrightarrow>
     snd (call fetch apiKey data init w') = snd (call fetch apiKey data init w)"
  by (simp add: call_def Let_def perform_def split: optional.split option.split sum.split)

text \<open>
  The headers on the wire: \<open>...init\<close> is spread after \<open>headers: mergedHeaders\<close>, so an
  \<open>init\<close> that has a \<open>headers\<close> property replaces the merged headers by its own, also
  when that property is \<^verbatim>\<open>undefined\<close>.
\<close>

lemma request_headers:
  "r_headers (request config apiKey data init) =
     (case r_headers init of
        Absent \<Rightarrow> Value (defaultHeaders (method config) apiKey)
      | Undefined \<Rightarrow> Undefined
      | Value h \<Rightarrow> Value h)"
  by (simp add: request_def spread_init_def spread_prop_def empty_init_def mergedHeaders_def
      spread_def split: optional.split)

lemma b64_all: "\<forall>n \<in> set [0..<64]. b64val (b64 n) = n \<and> b64 n \<noteq> CHR ''=''"
  by (simp add: b64_def b64val_def upt_rec)

lemma b64val_b64: "n < 64 \<Longrightarrow> b64val (b64 n) = n"
  using b64_all by simp

lemma b64_not_pad: "n < 64 \<Longrightarrow> b64 n \<noteq> CHR ''=''"
  using b64_all by simp

lemma sextet_mid: "(q::nat) < 4 \<Longrightarrow> (r::nat) < 16 \<Longrightarrow> q * 16 + r < 64"
  by simp

lemma sextet_low: "(q::nat) < 16 \<Longrightarrow> (r::nat) < 4 \<Longrightarrow> q * 4 + r < 64"
  by simp

lemma split_mid: "(r::nat) < 16 \<Longrightarrow> (q * 16 + r) div 16 = q \<and> (q * 16 + r) mod 16 = r"
  by simp

lemma split_low: "(r::nat) < 4 \<Longrightarrow> (q * 4 + r) div 4 = q \<and> (q * 4 + r) mod 4 = r"
  by simp


lemma byte1:
  assumes "(b::nat) < 256"
  shows "(a div 4) * 4 + ((a mod 4) * 16 + b div 16) div 16 = a"
proof -
  from assms have "b div 16 < 16" by simp
  then have "((a mod 4) * 16 + b div 16) div 16 = a mod 4"
    by (simp only: split_mid)
  then show ?thesis by (simp only: div_mult_mod_eq)
qed

lemma byte2:
  assumes "(b::nat) < 256" and "(c::nat) < 256"
  shows "(((a mod 4) * 16 + b div 16) mod 16) * 16 + ((b mod 16) * 4 + c div 64) div 4 = b"
proof -
  from assms have "b div 16 < 16" "c div 64 < 4" by simp_all
  then have "((a mod 4) * 16 + b div 16) mod 16 = b div 16"
    and "((b mod 16) * 4 + c div 64) div 4 = b mod 16"
    by (simp_all only: split_mid split_low)
  then show ?thesis by (simp only: div_mult_mod_eq)
qed

lemma byte3:
  assumes "(c::nat) < 256"
  shows "(((b mod 16) * 4 + c div 64) mod 4) * 64 + c mod 64 = c"
proof -
  from assms have "c div 64 < 4" by simp
  then have "((b mod 16) * 4 + c div 64) mod 4 = c div 64"
    by (simp only: split_low)
  then show ?thesis by (simp only: div_mult_mod_eq)
qed

lemma sextets:
  assumes "(a::nat) < 256" and "(b::nat) < 256" and "(c::nat) < 256"
  shows "a div 4 < 64" and "(a mod 4) * 16 + b div 16 < 64"
    and "(b mod 16) * 4 + c div 64 < 64" and "c mod 64 < 64"
proof -
  from assms have "b div 16 < 16" "c div 64 < 4" by simp_all
  moreover have "a mod 4 < 4" "b mod 16 < 16" by simp_all
  ultimately show "(a mod 4) * 16 + b div 16 < 64" "(b mod 16) * 4 + c div 64 < 64"
    by (simp_all only: sextet_mid sextet_low)
  from assms show "a div 4 < 64" by simp
  show "c mod 64 < 64" by simp
qed

lemma b64dec_quad:
  assumes "s1 < 64" "s2 < 64" "s3 < 64" "s4 < 64"
  shows "b64dec (b64 s1 # b64 s2 # b64 s3 # b64 s4 # r)
       = [s1 * 4 + s2 div 16, (s2 mod 16) * 16 + s3 div 4, (s3 mod 4) * 64 + s4] @ b64dec r"
  using assms by (simp add: Let_def b64val_b64 b64_not_pad)

lemma b64dec_pad1:
  assumes "s1 < 64" "s2 < 64" "s3 < 64"
  shows "b64dec [b64 s1, b64 s2, b64 s3, CHR ''='']
       = [s1 * 4 + s2 div 16, (s2 mod 16) * 16 + s3 div 4]"
  using assms by (simp add: Let_def b64val_b64 b64_not_pad)

lemma b64dec_pad2:
  assumes "s1 < 64" "s2 < 64"
  shows "b64dec [b64 s1, b64 s2, CHR ''='', CHR ''=''] = [s1 * 4 + s2 div 16]"
  using assms by (simp add: Let_def b64val_b64)


lemma b64dec_b64enc: "\<forall>b \<in> set bs. b < 256 \<Longrightarrow> b64dec (b64enc bs) = bs"
proof (induction bs rule: b64enc.induct)
  case 1
  show ?case by simp
next
  case (2 a)
  then have a: "a < 256" by simp
  have s: "a div 4 < 64" "(a mod 4) * 16 < 64" using a by simp_all
  have "(a div 4) * 4 + (a mod 4) * 16 div 16 = a" by simp
  with b64dec_pad2 [OF s] show ?case by (simp only: b64enc.simps)
next
  case (3 a b)
  then have ab: "a < 256" "b < 256" by simp_all
  have s: "a div 4 < 64" "(a mod 4) * 16 + b div 16 < 64" "(b mod 16) * 4 < 64"
    using sextets [OF ab ab(2)] by simp_all
  from ab have "b div 16 < 16" by simp
  then have "((a mod 4) * 16 + b div 16) mod 16 = b div 16" by (simp only: split_mid)
  moreover have "(b mod 16) * 4 div 4 = b mod 16" by simp
  ultimately have "(((a mod 4) * 16 + b div 16) mod 16) * 16 + (b mod 16) * 4 div 4 = b"
    by (simp only: div_mult_mod_eq)
  with b64dec_pad1 [OF s] byte1 [OF ab(2), of a] show ?case by (simp only: b64enc.simps)
next
  case (4 a b c r)
  then have abc: "a < 256" "b < 256" "c < 256" and IH: "b64dec (b64enc r) = r" by simp_all
  note s = sextets [OF abc]
  show ?case
    by (simp only: b64enc.simps append_Cons append_Nil b64dec_quad [OF s]
        byte1 [OF abc(2)] byte2 [OF abc(2,3)] byte3 [OF abc(3)] IH)
qed

lemma atob_btoa: "atob (btoa s) = s"
proof -
  have "\<forall>b \<in> set (map of_char s). b < (256::nat)" by simp
  then have "b64dec (b64enc (map of_char s)) = map of_char s" by (rule b64dec_b64enc)
  then show ?thesis by (simp add: atob_def btoa_def comp_def)
qed

text \<open>
  When \<open>init\<close> has no \<open>headers\<close> property, the request carries the Basic credentials:
  the base64 text of the API key followed by a colon, so with an empty password.
\<close>

lemma call_authorization_default:
  assumes "query data = Value q" and "r_headers init = Absent"
  shows "map (\<lambda>r. map_optional (\<lambda>h. map_of h ''Authorization'') (r_headers (snd r)))
           (sent (fst (call fetch apiKey data init w)))
         = map (\<lambda>r. map_optional (\<lambda>h. map_of h ''Authorization'') (r_headers (snd r))) (sent w)
           @ [Value (Some (''Basic '' @ btoa (apiKey @ '':'')))]"
    and "atob (btoa (apiKey @ '':'')) = apiKey @ '':''"
  using assms
  by (simp_all add: sent_call request_headers defaultHeaders_def Let_def atob_btoa)

subsection \<open>Response interpretation\<close>

text \<open>
  \<^verbatim>\<open>src/index.ts\<close>: a status inside 200..299 gives the parsed body; a status outside
  gives an error whose text holds the status and the status text, and nothing else.
\<close>

lemma call_result:
  assumes "query data = Value entries"
    and "fetch (build_fullUrl (interpolate (path (descriptor w)) (params data)) (build_qs entries))
           (request (descriptor w) apiKey data init) = Inr res"
  shows "snd (call fetch apiKey data init w) =
     (if ok res then (case json res of Some j \<Rightarrow> Inr j | None \<Rightarrow> Inl SyntaxError)
      else Inl (Error (''HTTP '' @ digits (unat (status res)) @ '': '' @ statusText res)))"
  using assms by (simp add: call_def Let_def perform_def request_def split: option.split)

text \<open>
  The later build: a status outside 200..299 gives an error whose text holds the method,
  the URL, the status and the status text; a status inside gives the parsed body.
\<close>

lemma call_part_002_result:
  assumes "fetch (build_fullUrl (interpolate (path (descriptor w)) (params data))
             (build_qs (case query data of Value entries \<Rightarrow> entries | _ \<Rightarrow> [])))
             req' = Inr res"
    and "req' = spread_init
                  (spread_init
                     \<lparr>r_method = Value (method_name (method (descriptor w))),
                      r_headers = Value (mergedHeaders (method (descriptor w)) apiKey init),
                      r_body = Absent, r_rest = []\<rparr>
                     (if method (descriptor w) = GET \<or> body data = Absent then empty_init
                      else empty_init\<lparr>r_body := stringify (body data)\<rparr>))
                  init"
  shows "snd (call_part_002 fetch apiKey data init w) =
     (if ok res then (case json res of Some j \<Rightarrow> Inr j | None \<Rightarrow> Inl SyntaxError)
      else Inl (Error (method_name (method (descriptor w)) @ '' ''
             @ build_fullUrl (interpolate (path (descriptor w)) (params data))
                 (build_qs (case query data of Value entries \<Rightarrow> entries | _ \<Rightarrow> []))
             @ '' HTTP '' @ digits (unat (status res)) @ '': '' @ statusText res)))"
  using assms by (simp add: call_part_002_def Let_def perform_def split: option.split)

text \<open>
  C1. A status outside 200..299 must give an error that carries the method, the full URL,
  the status and the status text. In \<^verbatim>\<open>src/index.ts\<close> the text of the error is
  \<^verbatim>\<open>HTTP ${res.status}: ${res.statusText}\<close>: for \<open>getTags\<close> answered with 404 it is
  \<^verbatim>\<open>HTTP 404: Not Found\<close>, which holds neither the method nor the URL. The later build
  gives \<^verbatim>\<open>GET https://api.lever.co/v1/tags HTTP 404: Not Found\<close> on the same input.
\<close>

theorem call_error_lacks_method_and_url:
  "snd (call (answer 404 ''Not Found'' None) ''key''
         \<lparr>params = [], query = Value [], body = Absent\<rparr> empty_init (fresh getTags))
     = Inl (Error ''HTTP 404: Not Found'')
   \<and> \<not> sublist ''GET'' ''HTTP 404: Not Found''
   \<and> \<not> sublist ''https://api.lever.co/v1/tags'' ''HTTP 404: Not Found''
   \<and> snd (call_part_002 (answer 404 ''Not Found'' None) ''key''
         \<lparr>params = [], query = Value [], body = Absent\<rparr> empty_init (fresh getTags))
     = Inl (Error ''GET https://api.lever.co/v1/tags HTTP 404: Not Found'')"
  by code_simp

subsection \<open>Headers\<close>

text \<open>
  C2. The headers of the issued request must be the default headers with the caller's
  headers merged on top. \<open>call\<close> computes exactly that as \<open>mergedHeaders\<close> and then loses
  it: for \<open>getTags\<close> called with \<^verbatim>\<open>init = {headers: {Accept: 'application/json'}}\<close> the
  request carries the caller's header only, and the default \<open>Authorization\<close> header, whose
  key does not collide, is gone.
\<close>

theorem call_headers_not_merged:
  "map (r_headers \<circ> snd)
     (sent (fst (call (answer 200 ''OK'' (Some JNull)) ''key''
        \<lparr>params = [], query = Value [], body = Absent\<rparr>
        (empty_init\<lparr>r_headers := Value [(''Accept'', ''application/json'')]\<rparr>) (fresh getTags))))
     = [Value [(''Accept'', ''application/json'')]]
   \<and> mergedHeaders GET ''key'' (empty_init\<lparr>r_headers := Value [(''Accept'', ''application/json'')]\<rparr>)
     = [(''Authorization'', ''Basic a2V5Og==''), (''Accept'', ''application/json'')]"
  by code_simp

text \<open>
  C8. Every request must carry \<open>Authorization: Basic base64(credential:)\<close> unless the
  caller overrides that key. For \<open>addOpportunityTags\<close> called with
  \<^verbatim>\<open>init = {headers: {'X-Request-Id': '42'}}\<close>, which does not name \<open>Authorization\<close>, the
  request has no \<open>Authorization\<close> header at all; without \<open>init.headers\<close> it has
  \<^verbatim>\<open>Basic a2V5Og==\<close>, the base64 text of \<^verbatim>\<open>key:\<close>.
\<close>

theorem call_authorization_dropped:
  "map (\<lambda>r. map_optional (\<lambda>h. map_of h ''Authorization'') (r_headers (snd r)))
     (sent (fst (call (answer 200 ''OK'' (Some (JObj []))) ''key''
        \<lparr>params = [(''opportunity'', ''op1'')], query = Value [], body = Value tagsBody\<rparr>
        (empty_init\<lparr>r_headers := Value [(''X-Request-Id'', ''42'')]\<rparr>) (fresh addOpportunityTags))))
     = [Value None]
   \<and> map (\<lambda>r. map_optional (\<lambda>h. map_of h ''Authorization'') (r_headers (snd r)))
     (sent (fst (call (answer 200 ''OK'' (Some (JObj []))) ''key''
        \<lparr>params = [(''opportunity'', ''op1'')], query = Value [], body = Value tagsBody\<rparr>
        empty_init (fresh addOpportunityTags))))
     = [Value (Some ''Basic a2V5Og=='')]"
  by code_simp

subsection \<open>An absent query\<close>

lemma call_absent_query:
  "query data = Absent \<or> query data = Undefined \<Longrightarrow>
     call fetch apiKey data init w
       = (w, Inl (TypeError ''Cannot convert undefined or null to object''))"
  by (auto simp add: call_def)

lemma call_part_002_absent_query:
  "query data = Absent \<or> query data = Undefined \<Longrightarrow>
     map fst (sent (fst (call_part_002 fetch apiKey data init w)))
       = map fst (sent w) @ [ROOT @ interpolate (path (descriptor w)) (params data)]"
  by (auto simp add: call_part_002_def Let_def sent_perform build_qs_def build_fullUrl_def
      URLSearchParams_toString_def)

text \<open>
  C3. With no \<open>query\<close> in the payload the call must go through, with an empty query string
  and no \<^verbatim>\<open>?\<close> in the URL. In \<^verbatim>\<open>src/index.ts\<close> \<^verbatim>\<open>Object.entries(query)\<close> raises a
  TypeError on \<^verbatim>\<open>undefined\<close>, before anything is sent: so does the call of
  \<open>retrieveApplication\<close> that the README shows. The later build sends one request to the
  URL without \<^verbatim>\<open>?\<close>.
\<close>

theorem call_absent_query_raises:
  "call (answer 200 ''OK'' (Some JNull)) ''key''
     \<lparr>params = [(''opportunity'', ''o1''), (''application'', ''a1'')], query = Absent, body = Absent\<rparr>
     empty_init (fresh retrieveApplication)
   = (fresh retrieveApplication, Inl (TypeError ''Cannot convert undefined or null to object''))
   \<and> map fst (sent (fst (call_part_002 (answer 200 ''OK'' (Some JNull)) ''key''
        \<lparr>params = [(''opportunity'', ''o1''), (''application'', ''a1'')], query = Absent, body = Absent\<rparr>
        empty_init (fresh retrieveApplication))))
     = [''https://api.lever.co/v1/opportunities/o1/applications/a1'']"
  by code_simp

text \<open>
  C6. \<open>addOpportunityTags\<close> called with \<^verbatim>\<open>params = {opportunity: 'op1'}\<close> and
  \<^verbatim>\<open>body = {tags: ['a', 'b']}\<close> must send one POST to the root followed by
  \<^verbatim>\<open>/opportunities/op1/addTags\<close>, with the JSON text of the body and
  \<^verbatim>\<open>Content-Type: application/json\<close>. The payload has no \<open>query\<close>, so \<open>call\<close> of
  \<^verbatim>\<open>src/index.ts\<close> raises the TypeError of C3 and sends nothing. The later build sends
  the request of the claim, and so does \<^verbatim>\<open>src/index.ts\<close> once \<^verbatim>\<open>query: {}\<close> is added.
\<close>

theorem call_addTags_scenario_raises:
  "call (answer 200 ''OK'' (Some (JObj []))) ''key''
     \<lparr>params = [(''opportunity'', ''op1'')], query = Absent, body = Value tagsBody\<rparr>
     empty_init (fresh addOpportunityTags)
   = (fresh addOpportunityTags, Inl (TypeError ''Cannot convert undefined or null to object''))
   \<and> sent (fst (call_part_002 (answer 200 ''OK'' (Some (JObj []))) ''key''
        \<lparr>params = [(''opportunity'', ''op1'')], query = Absent, body = Value tagsBody\<rparr>
        empty_init (fresh addOpportunityTags)))
     = [(ROOT @ ''/opportunities/op1/addTags'',
         \<lparr>r_method = Value ''POST'',
          r_headers = Value [(''Authorization'', ''Basic a2V5Og==''),
                            (''Content-Type'', ''application/json'')],
          r_body = Value tagsText, r_rest = []\<rparr>)]
   \<and> sent (fst (call (answer 200 ''OK'' (Some (JObj []))) ''key''
        \<lparr>params = [(''opportunity'', ''op1'')], query = Value [], body = Value tagsBody\<rparr>
        empty_init (fresh addOpportunityTags)))
     = [(ROOT @ ''/opportunities/op1/addTags'',
         \<lparr>r_method = Value ''POST'',
          r_headers = Value [(''Authorization'', ''Basic a2V5Og==''),
                            (''Content-Type'', ''application/json'')],
          r_body = Value tagsText, r_rest = []\<rparr>)]"
  by code_simp

subsection \<open>The request body\<close>

text \<open>
  What \<^verbatim>\<open>src/index.ts\<close> does when the payload has a query: one request is sent. A GET
  endpoint puts no \<open>body\<close> property into it, whatever \<open>payload.body\<close> holds; any other
  endpoint puts the JSON text of \<open>payload.body\<close> into it; and a \<open>body\<close> property of \<open>init\<close>,
  which the declared type of \<open>init\<close> does not have, is spread last and wins.
\<close>

lemma call_sends_body:
  assumes "query data = Value entries"
  shows "\<exists>url req. sent (fst (call fetch apiKey data init w)) = sent w @ [(url, req)]
           \<and> r_body req =
               (case r_body init of
                  Absent \<Rightarrow> (if method (descriptor w) = GET then Absent else stringify (body data))
                | Undefined \<Rightarrow> Undefined
                | Value b \<Rightarrow> Value b)"
  using assms
  by (simp add: sent_call request_def spread_init_def spread_prop_def empty_init_def
      split: optional.split)

text \<open>The later build does so for every payload, with or without a query.\<close>

lemma call_part_002_sends_body:
  "\<exists>url req. sent (fst (call_part_002 fetch apiKey data init w)) = sent w @ [(url, req)]
     \<and> r_body req =
         (case r_body init of
            Absent \<Rightarrow> (if method (descriptor w) = GET \<or> body data = Absent then Absent
                       else stringify (body data))
          | Undefined \<Rightarrow> Undefined
          | Value b \<Rightarrow> Value b)"
  by (simp add: call_part_002_def Let_def sent_perform spread_init_def spread_prop_def
      empty_init_def split: optional.split)

text \<open>
  C7. A GET endpoint must send no body, and every invocation of a non-GET endpoint with a
  body must send the JSON text of that body. The first half holds. The second fails in
  \<^verbatim>\<open>src/index.ts\<close> on a payload without \<open>query\<close>: \<open>updateInterview\<close>, a PUT endpoint whose
  query type is empty, called with \<^verbatim>\<open>body = {subject: 'Sync', duration: 30}\<close> raises the
  TypeError of C3 and sends nothing. The later build sends the JSON text on that input,
  and so does \<^verbatim>\<open>src/index.ts\<close> once \<^verbatim>\<open>query: {}\<close> is added.
\<close>

theorem call_body_not_sent:
  "call (answer 200 ''OK'' (Some (JObj []))) ''key''
     \<lparr>params = [(''opportunity'', ''op1''), (''interview'', ''i1'')], query = Absent,
      body = Value interviewBody\<rparr>
     empty_init (fresh updateInterview)
   = (fresh updateInterview, Inl (TypeError ''Cannot convert undefined or null to object''))
   \<and> map (\<lambda>r. (fst r, r_method (snd r), r_body (snd r)))
       (sent (fst (call_part_002 (answer 200 ''OK'' (Some (JObj []))) ''key''
          \<lparr>params = [(''opportunity'', ''op1''), (''interview'', ''i1'')], query = Absent,
           body = Value interviewBody\<rparr>
          empty_init (fresh updateInterview))))
     = [(ROOT @ ''/opportunities/op1/interviews/i1'', Value ''PUT'', Value interviewText)]
   \<and> map (\<lambda>r. (fst r, r_method (snd r), r_body (snd r)))
       (sent (fst (call (answer 200 ''OK'' (Some (JObj []))) ''key''
          \<lparr>params = [(''opportunity'', ''op1''), (''interview'', ''i1'')], query = Value [],
           body = Value interviewBody\<rparr>
          empty_init (fresh updateInterview))))
     = [(ROOT @ ''/opportunities/op1/interviews/i1'', Value ''PUT'', Value interviewText)]
   \<and> map (\<lambda>r. (r_method (snd r), r_body (snd r)))
       (sent (fst (call (answer 200 ''OK'' (Some (JObj []))) ''key''
          \<lparr>params = [(''opportunity'', ''op1'')], query = Value [], body = Value interviewBody\<rparr>
          empty_init (fresh listApplications))))
     = [(Value ''GET'', Absent)]"
  by code_simp

subsection \<open>The descriptor and the history\<close>

text \<open>
  C9. A call leaves the descriptor as it found it, whether it succeeds or fails, and
  nothing of one call reaches the next: after any first call, a second call returns what
  it would have returned without the first one, and sends the same request.
\<close>

theorem call_keeps_descriptor_and_no_state:
  "descriptor (fst (call fetch apiKey data init w)) = descriptor w
   \<and> snd (call fetch apiKey' data' init' (fst (call fetch apiKey data init w)))
       = snd (call fetch apiKey' data' init' w)
   \<and> sent (fst (call fetch apiKey' data' init' (fst (call fetch apiKey data init w))))
       = sent (fst (call fetch apiKey data init w))
         @ drop (length (sent w)) (sent (fst (call fetch apiKey' data' init' w)))"
  using snd_call_history [of "fst (call fetch apiKey data init w)" w fetch apiKey' data' init']
  by (simp add: descriptor_call sent_call split: optional.split)

subsection \<open>The compiled file\<close>

text \<open>
  C10. \<open>call\<close> of \<^verbatim>\<open>dist/index.js\<close> and \<open>call\<close> of \<^verbatim>\<open>src/index.ts\<close> are the same
  function: same requests sent, same result, same world left behind.
\<close>

theorem call_dist_eq_call:
  "call_dist fetch apiKey data init w = call fetch apiKey data init w"
  by (simp add: call_dist_def call_def)

subsection \<open>Path interpolation\<close>

lemma split_on_nonempty: "split_on sep s \<noteq> []"
  by (induction s) (auto split: list.split)

lemma join_Cons: "join sep (s # ss) = s @ (if ss = [] then [] else sep # join sep ss)"
  by (cases ss) simp_all

lemma join_split_on: "join sep (split_on sep s) = s"
  by (induction s) (auto simp add: join_Cons split_on_nonempty split: list.split)

lemma getSubstitution_plain:
  "CHR ''$'' \<notin> set rep \<Longrightarrow> getSubstitution m pre post rep = rep"
  by (induction m pre post rep rule: getSubstitution.induct) auto

lemma replace_match:
  "prefix pat (c # cs) \<Longrightarrow> CHR ''$'' \<notin> set rep \<Longrightarrow>
     replace pat rep (c # cs) = rep @ drop (length pat) (c # cs)"
  by (simp add: replace_def getSubstitution_plain)

lemma replace_Cons:
  "\<not> prefix pat (c # cs) \<Longrightarrow> CHR ''$'' \<notin> set rep \<Longrightarrow>
     replace pat rep (c # cs) = c # replace pat rep cs"
  by (auto simp add: replace_def getSubstitution_plain split: option.split)

lemma replace_Nil: "pat \<noteq> [] \<Longrightarrow> replace pat rep [] = []"
  by (simp add: replace_def)

lemma replace_skip:
  "c \<notin> set s \<Longrightarrow> CHR ''$'' \<notin> set rep \<Longrightarrow>
     replace (c # k) rep (s @ t) = s @ replace (c # k) rep t"
  by (induction s) (auto simp add: replace_Cons)

lemma hexdigit_mem: "n < 16 \<Longrightarrow> hexdigit n \<in> set ''0123456789ABCDEF''"
  unfolding hexdigit_def by (rule nth_mem) simp

lemma pct_byte_set: "b < 256 \<Longrightarrow> set (pct_byte b) \<subseteq> set ''%0123456789ABCDEF''"
proof -
  assume "b < 256"
  then have "b div 16 < 16" "b mod 16 < 16" by simp_all
  then have "hexdigit (b div 16) \<in> set ''0123456789ABCDEF''"
    "hexdigit (b mod 16) \<in> set ''0123456789ABCDEF''"
    by (simp_all only: hexdigit_mem)
  then show ?thesis by (auto simp add: pct_byte_def)
qed

lemma utf8_bytes_bound:
  "(n::nat) < 256 \<Longrightarrow> b \<in> set (if n < 128 then [n] else [192 + n div 64, 128 + n mod 64]) \<Longrightarrow> b < 256"
  by (auto split: if_splits)

lemma utf8_bound: "b \<in> set (utf8 c) \<Longrightarrow> b < 256"
  using utf8_bytes_bound [of "of_char c" b] by (simp add: utf8_def Let_def)

lemma pct_utf8_set: "x \<in> set (concat (map pct_byte (utf8 c))) \<Longrightarrow> x \<in> set ''%0123456789ABCDEF''"
proof -
  assume "x \<in> set (concat (map pct_byte (utf8 c)))"
  then obtain b where b: "b \<in> set (utf8 c)" and x: "x \<in> set (pct_byte b)"
    by auto
  from b have "b < 256" by (rule utf8_bound)
  then have "set (pct_byte b) \<subseteq> set ''%0123456789ABCDEF''" by (rule pct_byte_set)
  with x show ?thesis by (rule subsetD [rotated])
qed

lemma encodeURIComponent_set:
  "x \<in> set (encodeURIComponent s) \<Longrightarrow> uri_unreserved x \<or> x \<in> set ''%0123456789ABCDEF''"
proof (induction s)
  case Nil
  then show ?case by (simp add: encodeURIComponent_def)
next
  case (Cons c s)
  from Cons.prems have "x \<in> set (if uri_unreserved c then [c] else concat (map pct_byte (utf8 c)))
      \<or> x \<in> set (encodeURIComponent s)"
    by (simp add: encodeURIComponent_def)
  then show ?case
  proof
    assume "x \<in> set (if uri_unreserved c then [c] else concat (map pct_byte (utf8 c)))"
    then show ?thesis using pct_utf8_set [of x c] by (simp split: if_splits)
  next
    assume "x \<in> set (encodeURIComponent s)"
    then show ?thesis by (rule Cons.IH)
  qed
qed

lemma encodeURIComponent_plain:
  "CHR '':'' \<notin> set (encodeURIComponent v)"
  "CHR ''$'' \<notin> set (encodeURIComponent v)"
  "CHR ''/'' \<notin> set (encodeURIComponent v)"
  using encodeURIComponent_set [of _ v]
  by (auto simp add: uri_unreserved_def alnum_def)

lemma not_placeholder_colon_free:
  "\<not> is_placeholder seg \<Longrightarrow> CHR '':'' \<notin> set (tl seg) \<Longrightarrow> CHR '':'' \<notin> set seg"
  by (cases seg) (auto simp add: is_placeholder_def)

lemma is_placeholder_Cons [simp]: "is_placeholder (c # n) \<longleftrightarrow> c = CHR '':''"
  by (simp add: is_placeholder_def)

lemma no_match_at_other:
  assumes "n \<noteq> k" and "\<not> prefix k n" and "CHR ''/'' \<notin> set k"
    and "t = [] \<or> (\<exists>u. t = CHR ''/'' # u)"
  shows "\<not> prefix (CHR '':'' # k) (CHR '':'' # n @ t)"
proof
  assume "prefix (CHR '':'' # k) (CHR '':'' # n @ t)"
  then have "prefix k (n @ t)" by simp
  then consider "prefix k n" | us where "k = n @ us" "prefix us t"
    by (auto simp add: prefix_append)
  then show False
  proof cases
    case 1
    with assms(2) show False by simp
  next
    case 2
    from assms(4) show False
    proof
      assume "t = []"
      with 2 assms(1) show False by simp
    next
      assume "\<exists>u. t = CHR ''/'' # u"
      then obtain u where "t = CHR ''/'' # u" ..
      with 2 assms(1,3) show False by (cases us) auto
    qed
  qed
qed

lemma replace_join:
  assumes rep: "CHR ''$'' \<notin> set rep"
    and slash: "CHR ''/'' \<notin> set k"
    and wf: "\<forall>seg \<in> set segs. CHR '':'' \<notin> set (tl seg)"
    and pf: "\<forall>seg \<in> set segs. is_placeholder seg \<longrightarrow> prefix k (tl seg) \<longrightarrow> tl seg = k"
    and once: "distinct (map tl (filter is_placeholder segs))"
  shows "replace (CHR '':'' # k) rep (join (CHR ''/'') segs)
       = join (CHR ''/'') (map (\<lambda>seg. if seg = CHR '':'' # k then rep else seg) segs)"
  using wf pf once
proof (induction segs)
  case Nil
  then show ?case by (simp add: replace_Nil)
next
  case (Cons s ss)
  let ?pat = "CHR '':'' # k"
  let ?F = "\<lambda>seg. if seg = ?pat then rep else seg"
  let ?t = "if ss = [] then [] else CHR ''/'' # join (CHR ''/'') ss"
  have IH: "replace ?pat rep (join (CHR ''/'') ss) = join (CHR ''/'') (map ?F ss)"
    using Cons by (auto split: if_splits)
  have T: "replace ?pat rep ?t = (if ss = [] then [] else CHR ''/'' # join (CHR ''/'') (map ?F ss))"
    using IH rep by (simp add: replace_Nil replace_Cons)
  have tshape: "?t = [] \<or> (\<exists>u. ?t = CHR ''/'' # u)" by simp
  have J: "join (CHR ''/'') (s # ss) = s @ ?t" by (simp add: join_Cons)
  have JF: "join (CHR ''/'') (map ?F (s # ss))
      = ?F s @ (if ss = [] then [] else CHR ''/'' # join (CHR ''/'') (map ?F ss))"
    by (simp add: join_Cons)
  show ?case
  proof (cases "is_placeholder s")
    case False
    with Cons.prems(1) have "CHR '':'' \<notin> set s"
      by (simp add: not_placeholder_colon_free)
    then have "replace ?pat rep (s @ ?t) = s @ replace ?pat rep ?t"
      using rep by (rule replace_skip)
    moreover from False have "?F s = s" by auto
    ultimately show ?thesis using T J JF by simp
  next
    case True
    then obtain n where s: "s = CHR '':'' # n"
      by (cases s) (auto simp add: is_placeholder_def)
    show ?thesis
    proof (cases "n = k")
      case eq: True
      with s have sk: "s = ?pat" by simp
      have "CHR '':'' # k \<notin> set ss"
      proof
        assume "CHR '':'' # k \<in> set ss"
        then have "tl (CHR '':'' # k) \<in> tl ` set (filter is_placeholder ss)"
          by (intro imageI) simp
        with Cons.prems(3) sk show False by simp
      qed
      then have "map ?F ss = ss" by (induction ss) auto
      moreover have "replace ?pat rep (?pat @ ?t) = rep @ ?t"
        using replace_match [of ?pat "CHR '':''" "k @ ?t" rep] rep by simp
      ultimately show ?thesis using J JF sk by simp
    next
      case neq: False
      from Cons.prems(2) s neq have np: "\<not> prefix k n" by auto
      have "\<not> prefix ?pat (CHR '':'' # n @ ?t)"
        using neq np slash tshape by (rule no_match_at_other)
      then have "replace ?pat rep (CHR '':'' # n @ ?t) = CHR '':'' # replace ?pat rep (n @ ?t)"
        using rep by (rule replace_Cons)
      moreover have "replace ?pat rep (n @ ?t) = n @ replace ?pat rep ?t"
        using Cons.prems(1) rep s by (intro replace_skip) simp_all
      moreover from neq s have "?F s = s" by auto
      ultimately show ?thesis using T J JF s by simp
    qed
  qed
qed

lemma encodeURIComponent_not_placeholder: "\<not> is_placeholder (encodeURIComponent v)"
  using encodeURIComponent_plain(1) [of v]
  by (cases "encodeURIComponent v") (auto simp add: is_placeholder_def)

lemma fill_empty: "fill Map.empty seg = seg"
  by (simp add: fill_def)

lemma fill_step:
  "fill m (if seg = CHR '':'' # k then encodeURIComponent v else seg) = fill (m(k \<mapsto> v)) seg"
proof (cases "seg = CHR '':'' # k")
  case True
  then show ?thesis
    by (simp add: fill_def encodeURIComponent_not_placeholder)
next
  case False
  then have "is_placeholder seg \<Longrightarrow> tl seg \<noteq> k"
    by (cases seg) (auto simp add: is_placeholder_def)
  with False show ?thesis by (auto simp add: fill_def)
qed

lemma filter_placeholder_step:
  "filter is_placeholder (map (\<lambda>seg. if seg = CHR '':'' # k then encodeURIComponent v else seg) segs)
     = filter (\<lambda>seg. seg \<noteq> CHR '':'' # k) (filter is_placeholder segs)"
  by (induction segs) (auto simp add: encodeURIComponent_not_placeholder)

lemma interpolate_join:
  assumes "\<forall>seg \<in> set segs. CHR '':'' \<notin> set (tl seg)"
    and "distinct (map tl (filter is_placeholder segs))"
    and "\<forall>k \<in> fst ` set ps. CHR ''/'' \<notin> set k
           \<and> (\<forall>seg \<in> set segs. is_placeholder seg \<longrightarrow> prefix k (tl seg) \<longrightarrow> tl seg = k)"
  shows "interpolate (join (CHR ''/'') segs) ps = join (CHR ''/'') (map (fill (map_of ps)) segs)"
  using assms
proof (induction ps arbitrary: segs)
  case Nil
  then show ?case by (simp add: fill_empty)
next
  case (Cons kv ps)
  obtain k v where kv: "kv = (k, v)" by (cases kv)
  let ?F = "\<lambda>seg. if seg = CHR '':'' # k then encodeURIComponent v else seg"
  let ?segs' = "map ?F segs"
  have step: "replace (CHR '':'' # k) (encodeURIComponent v) (join (CHR ''/'') segs)
      = join (CHR ''/'') ?segs'"
    using Cons.prems kv by (intro replace_join encodeURIComponent_plain) auto
  have wf': "\<forall>seg \<in> set ?segs'. CHR '':'' \<notin> set (tl seg)"
  proof
    fix seg assume "seg \<in> set ?segs'"
    then consider "seg \<in> set segs" | "seg = encodeURIComponent v" by auto
    then show "CHR '':'' \<notin> set (tl seg)"
    proof cases
      case 1
      with Cons.prems(1) show ?thesis by simp
    next
      case 2
      then show ?thesis
        using encodeURIComponent_plain(1) [of v] by (cases "encodeURIComponent v") auto
    qed
  qed
  have once': "distinct (map tl (filter is_placeholder ?segs'))"
    using Cons.prems(2) by (simp only: filter_placeholder_step distinct_map_filter)
  have sub: "set (filter is_placeholder ?segs') \<subseteq> set (filter is_placeholder segs)"
    by (simp only: filter_placeholder_step) auto
  have keys': "\<forall>k' \<in> fst ` set ps. CHR ''/'' \<notin> set k'
           \<and> (\<forall>seg \<in> set ?segs'. is_placeholder seg \<longrightarrow> prefix k' (tl seg) \<longrightarrow> tl seg = k')"
  proof (intro ballI conjI impI)
    fix k' assume "k' \<in> fst ` set ps"
    then have k': "k' \<in> fst ` set (kv # ps)" by auto
    with Cons.prems(3) show "CHR ''/'' \<notin> set k'" by blast
    fix seg assume "seg \<in> set ?segs'" "is_placeholder seg" "prefix k' (tl seg)"
    with sub have "seg \<in> set segs" by auto
    with Cons.prems(3) k' \<open>is_placeholder seg\<close> \<open>prefix k' (tl seg)\<close> show "tl seg = k'"
      by blast
  qed
  have "interpolate (join (CHR ''/'') segs) (kv # ps) = interpolate (join (CHR ''/'') ?segs') ps"
    using step kv by simp
  also have "\<dots> = join (CHR ''/'') (map (fill (map_of ps)) ?segs')"
    using wf' once' keys' by (rule Cons.IH)
  also have "map (fill (map_of ps)) ?segs' = map (fill (map_of (kv # ps))) segs"
    using kv by (simp add: fill_step)
  finally show ?case .
qed

lemma set_join: "set (join sep segs) \<subseteq> insert sep (\<Union>(set ` set segs))"
  by (induction sep segs rule: join.induct) auto

text \<open>
  C4, as amended. Take a template in which \<^verbatim>\<open>:\<close> stands only at the start of a segment,
  with pairwise distinct placeholder names, and params whose keys hold no \<^verbatim>\<open>/\<close> and are
  a prefix of no placeholder name but their own. Then interpolation is the substitution:
  each placeholder that has a param is replaced by the percent-encoded value, a
  placeholder without a param stays as it is, a param without a placeholder changes
  nothing; and when every placeholder has a param, no \<^verbatim>\<open>:\<close> is left in the result.
\<close>

theorem interpolate_substitute:
  assumes "\<forall>seg \<in> set (split_on (CHR ''/'') p). CHR '':'' \<notin> set (tl seg)"
    and "distinct (placeholders p)"
    and "\<forall>k \<in> fst ` set ps. CHR ''/'' \<notin> set k
           \<and> (\<forall>n \<in> set (placeholders p). prefix k n \<longrightarrow> n = k)"
  shows "interpolate p ps = substitute (map_of ps) p
       \<and> (set (placeholders p) \<subseteq> fst ` set ps \<longrightarrow> CHR '':'' \<notin> set (interpolate p ps))"
proof -
  let ?segs = "split_on (CHR ''/'') p"
  have keys: "\<forall>k \<in> fst ` set ps. CHR ''/'' \<notin> set k
           \<and> (\<forall>seg \<in> set ?segs. is_placeholder seg \<longrightarrow> prefix k (tl seg) \<longrightarrow> tl seg = k)"
    using assms(3) by (auto simp add: placeholders_def)
  have "interpolate (join (CHR ''/'') ?segs) ps = join (CHR ''/'') (map (fill (map_of ps)) ?segs)"
    using assms(1) assms(2) [unfolded placeholders_def] keys by (rule interpolate_join)
  then have eq: "interpolate p ps = substitute (map_of ps) p"
    by (simp add: join_split_on substitute_def)
  have "CHR '':'' \<notin> set (interpolate p ps)" if all: "set (placeholders p) \<subseteq> fst ` set ps"
  proof -
    have "CHR '':'' \<notin> set (fill (map_of ps) seg)" if seg: "seg \<in> set ?segs" for seg
    proof (cases "is_placeholder seg")
      case True
      with seg have "tl seg \<in> set (placeholders p)" by (auto simp add: placeholders_def)
      with all have "tl seg \<in> fst ` set ps" by auto
      then have "map_of ps (tl seg) \<noteq> None"
        by (simp only: map_of_eq_None_iff not_not)
      then obtain v where "map_of ps (tl seg) = Some v" by blast
      with True show ?thesis by (simp add: fill_def encodeURIComponent_plain)
    next
      case False
      with assms(1) seg show ?thesis by (simp add: fill_def not_placeholder_colon_free)
    qed
    then have "CHR '':'' \<notin> set (substitute (map_of ps) p)"
      using set_join [of "CHR ''/''" "map (fill (map_of ps)) ?segs"]
      by (auto simp add: substitute_def)
    with eq show ?thesis by simp
  qed
  with eq show ?thesis by simp
qed

theorem interpolate_substitute_witness:
  "list_all (\<lambda>seg. CHR '':'' \<notin> set (tl seg))
     (split_on (CHR ''/'') ''/opportunities/:opportunity/applications/:application'')
   \<and> distinct (placeholders ''/opportunities/:opportunity/applications/:application'')
   \<and> set (placeholders ''/opportunities/:opportunity/applications/:application'')
       = fst ` set [(''application'', ''x/y''), (''opportunity'', ''a b'')]
   \<and> interpolate ''/opportunities/:opportunity/applications/:application''
        [(''application'', ''x/y''), (''opportunity'', ''a b'')]
       = ''/opportunities/a%20b/applications/x%2Fy''
   \<and> CHR '':'' \<notin> set (interpolate ''/opportunities/:opportunity/applications/:application''
        [(''application'', ''x/y''), (''opportunity'', ''a b'')])"
proof -
  let ?p = "''/opportunities/:opportunity/applications/:application''"
  let ?ps = "[(''application'', ''x/y''), (''opportunity'', ''a b'')]"
  have segs: "split_on (CHR ''/'') ?p = [[], ''opportunities'', '':opportunity'', ''applications'', '':application'']"
    by code_simp
  have ph: "placeholders ?p = [''opportunity'', ''application'']"
    by code_simp
  have h1: "\<forall>seg \<in> set (split_on (CHR ''/'') ?p). CHR '':'' \<notin> set (tl seg)"
    by (simp add: segs)
  have h2: "distinct (placeholders ?p)" by (simp add: ph)
  have h3: "\<forall>k \<in> fst ` set ?ps. CHR ''/'' \<notin> set k
           \<and> (\<forall>n \<in> set (placeholders ?p). prefix k n \<longrightarrow> n = k)"
    by (simp add: ph)
  have r: "substitute (map_of ?ps) ?p = ''/opportunities/a%20b/applications/x%2Fy''"
    by code_simp
  have keys: "set (placeholders ?p) = fst ` set ?ps"
    by (simp add: ph insert_commute)
  from interpolate_substitute [OF h1 h2 h3] r keys
  have "interpolate ?p ?ps = ''/opportunities/a%20b/applications/x%2Fy''"
    and "CHR '':'' \<notin> set (interpolate ?p ?ps)"
    by simp_all
  with keys h2 show ?thesis by (simp add: segs)
qed

text \<open>
  Without these conditions the claim fails, also when the keys are exactly the
  placeholders: \<^verbatim>\<open>:a\<close> is found first inside \<^verbatim>\<open>:ab\<close>; only the first of two equal
  placeholders is replaced; and a param that matches no placeholder is not ignored when
  its name starts one.
\<close>

theorem interpolate_leaves_token_counterexample:
  "set (placeholders ''/:ab/:a'') = fst ` set [(''a'', ''1''), (''ab'', ''2'')]
   \<and> interpolate ''/:ab/:a'' [(''a'', ''1''), (''ab'', ''2'')] = ''/1b/:a''
   \<and> placeholders (interpolate ''/:ab/:a'' [(''a'', ''1''), (''ab'', ''2'')]) = [''a'']
   \<and> set (placeholders ''/:id/copy/:id'') = fst ` set [(''id'', ''7'')]
   \<and> interpolate ''/:id/copy/:id'' [(''id'', ''7'')] = ''/7/copy/:id''
   \<and> interpolate ''/opportunities/:opportunity'' [(''opp'', ''x''), (''opportunity'', ''o1'')]
       = ''/opportunities/xortunity''"
  by code_simp

subsection \<open>Query serialisation\<close>

lemma hexval_hexdigit_all: "\<forall>n \<in> set [0..<16]. hexval (hexdigit n) = n"
  by code_simp

lemma hexval_hexdigit: "n < 16 \<Longrightarrow> hexval (hexdigit n) = n"
  using hexval_hexdigit_all by simp

lemma byte_value: "b < 256 \<Longrightarrow> 16 * hexval (hexdigit (b div 16)) + hexval (hexdigit (b mod 16)) = b"
  by (simp add: hexval_hexdigit)

lemma form_decode_pct_low:
  "n < 128 \<Longrightarrow> form_decode (pct_byte n @ r) = char_of n # form_decode r"
  using byte_value [of n] by (simp add: pct_byte_def)

lemma form_decode_pct_pair:
  assumes "16 * hexval a + hexval b = n1" and "128 \<le> n1" and "16 * hexval c + hexval d = n2"
  shows "form_decode (CHR ''%'' # a # b # CHR ''%'' # c # d # r)
       = char_of ((n1 - 192) * 64 + (n2 - 128)) # form_decode r"
  using assms by (simp add: Let_def)

lemma form_decode_pct_high:
  assumes "128 \<le> n" "n < 256"
  shows "form_decode (pct_byte (192 + n div 64) @ pct_byte (128 + n mod 64) @ r) = char_of n # form_decode r"
proof -
  have b1: "192 + n div 64 < 256" using assms by simp
  have b2: "128 + n mod 64 < 256" by simp
  have hi: "128 \<le> 192 + n div 64" by simp
  have n: "(192 + n div 64 - 192) * 64 + (128 + n mod 64 - 128) = n" by simp
  have "form_decode (pct_byte (192 + n div 64) @ pct_byte (128 + n mod 64) @ r)
      = char_of ((192 + n div 64 - 192) * 64 + (128 + n mod 64 - 128)) # form_decode r"
    unfolding pct_byte_def append_Cons append_Nil
    by (rule form_decode_pct_pair [OF byte_value [OF b1] hi byte_value [OF b2]])
  then show ?thesis by (simp only: n)
qed

lemma form_safe_plain: "form_safe c \<Longrightarrow> c \<noteq> CHR ''+'' \<and> c \<noteq> CHR ''%''"
  by (auto simp add: form_safe_def alnum_def)

lemma form_decode_utf8:
  assumes "n < 256"
  shows "form_decode
           (concat (map pct_byte (if n < 128 then [n] else [192 + n div 64, 128 + n mod 64])) @ r)
         = char_of n # form_decode r"
proof (cases "n < 128")
  case True
  then show ?thesis by (simp add: form_decode_pct_low)
next
  case False
  with assms have "128 \<le> n" "n < 256" by simp_all
  then have "form_decode (pct_byte (192 + n div 64) @ pct_byte (128 + n mod 64) @ r)
      = char_of n # form_decode r"
    by (rule form_decode_pct_high)
  with False show ?thesis by simp
qed

lemma form_decode_char: "form_decode (form_char c @ r) = c # form_decode r"
proof -
  consider "c = CHR '' ''" | "c \<noteq> CHR '' ''" "form_safe c" | "c \<noteq> CHR '' ''" "\<not> form_safe c"
    by blast
  then show ?thesis
  proof cases
    case 1
    then show ?thesis by (simp add: form_char_def)
  next
    case 2
    then show ?thesis using form_safe_plain [of c] by (simp add: form_char_def)
  next
    case 3
    have "form_decode (concat (map pct_byte (utf8 c)) @ r) = char_of (of_char c :: nat) # form_decode r"
      unfolding utf8_def Let_def by (rule form_decode_utf8) simp
    with 3 show ?thesis by (simp add: form_char_def)
  qed
qed

lemma form_decode_encode_append: "form_decode (form_encode s @ r) = s @ form_decode r"
  by (induction s) (simp_all add: form_encode_def form_decode_char)

lemma form_decode_encode: "form_decode (form_encode s) = s"
  using form_decode_encode_append [of s "[]"] by simp

lemma form_char_set:
  "x \<in> set (form_char c) \<Longrightarrow> form_safe x \<or> x \<in> set ''+%0123456789ABCDEF''"
  using pct_utf8_set [of x c] by (auto simp add: form_char_def split: if_splits)

lemma form_encode_set:
  "x \<in> set (form_encode s) \<Longrightarrow> form_safe x \<or> x \<in> set ''+%0123456789ABCDEF''"
proof -
  assume "x \<in> set (form_encode s)"
  then obtain c where "x \<in> set (form_char c)"
    by (auto simp add: form_encode_def)
  then show ?thesis by (rule form_char_set)
qed

lemma form_encode_plain:
  "CHR ''&'' \<notin> set (form_encode s)"
  "CHR ''='' \<notin> set (form_encode s)"
  using form_encode_set [of _ s] by (auto simp add: form_safe_def alnum_def)

lemma split_on_plain: "sep \<notin> set x \<Longrightarrow> split_on sep x = [x]"
  by (induction x) auto

lemma split_on_append:
  "sep \<notin> set x \<Longrightarrow> split_on sep (x @ sep # t) = x # split_on sep t"
  by (induction x) auto

lemma split_on_join:
  "xs \<noteq> [] \<Longrightarrow> \<forall>x \<in> set xs. sep \<notin> set x \<Longrightarrow> split_on sep (join sep xs) = xs"
  by (induction sep xs rule: join.induct) (simp_all add: split_on_plain split_on_append)

lemma break_eq_pair: "CHR ''='' \<notin> set a \<Longrightarrow> break_eq (a @ CHR ''='' # b) = (a, b)"
  by (induction a) (auto simp add: break_eq_def)

lemma parse_qs_toString: "parse_qs (URLSearchParams_toString ps) = ps"
proof (cases "ps = []")
  case True
  then show ?thesis by (simp add: parse_qs_def URLSearchParams_toString_def)
next
  case False
  let ?pair = "\<lambda>(k, v). form_encode k @ ''='' @ form_encode v"
  have amp: "\<forall>x \<in> set (map ?pair ps). CHR ''&'' \<notin> set x"
    by (auto simp add: form_encode_plain)
  have ne: "\<forall>x \<in> set (map ?pair ps). x \<noteq> []" by auto
  from False amp have "split_on (CHR ''&'') (URLSearchParams_toString ps) = map ?pair ps"
    unfolding URLSearchParams_toString_def by (intro split_on_join) simp_all
  moreover from ne have "filter (\<lambda>p. p \<noteq> []) (map ?pair ps) = map ?pair ps"
    by (simp only: filter_id_conv) 
  moreover have "map (\<lambda>p. (form_decode (fst (break_eq p)), form_decode (snd (break_eq p)))) (map ?pair ps) = ps"
    by (induction ps) (auto simp add: break_eq_pair form_encode_plain form_decode_encode)
  ultimately show ?thesis by (simp add: parse_qs_def)
qed

lemma toString_empty: "URLSearchParams_toString ps = [] \<longleftrightarrow> ps = []"
proof
  assume "URLSearchParams_toString ps = []"
  then have "parse_qs (URLSearchParams_toString ps) = []"
    by (simp add: parse_qs_def)
  then show "ps = []" by (simp add: parse_qs_toString)
qed (simp add: URLSearchParams_toString_def)

lemma map_fst_kept: "map fst (map (\<lambda>(k, v). (k, js_String v)) xs) = map fst xs"
  by (induction xs) auto

text \<open>
  C5. When the payload has a query, whose keys are distinct as those of an object are:
  the request goes to the root, followed by the interpolated path, followed by \<^verbatim>\<open>?\<close> and
  the query string when an entry is left after the entries with \<^verbatim>\<open>null\<close> or
  \<^verbatim>\<open>undefined\<close> are dropped; the query string is the \<^verbatim>\<open>key=value\<close> pairs of the entries
  left, encoded and joined by \<^verbatim>\<open>&\<close>; and read back, it gives exactly those entries with
  their values as strings, each key once and no dropped key.
\<close>

theorem call_query_string:
  assumes "query data = Value q" and "distinct (map fst q)"
  shows "sent (fst (call fetch apiKey data init w))
           = sent w @ [(ROOT @ interpolate (path (descriptor w)) (params data)
                          @ (if filter notNull q = [] then [] else ''?'' @ build_qs q),
                        request (descriptor w) apiKey data init)]
       \<and> build_qs q = join (CHR ''&'')
           (map (\<lambda>(k, v). form_encode k @ ''='' @ form_encode (js_String v)) (filter notNull q))
       \<and> parse_qs (build_qs q) = map (\<lambda>(k, v). (k, js_String v)) (filter notNull q)
       \<and> distinct (map fst (parse_qs (build_qs q)))
       \<and> set (map fst (parse_qs (build_qs q)))
           = {k. \<exists>v. (k, v) \<in> set q \<and> v \<noteq> PNull \<and> v \<noteq> PUndefined}"
proof -
  let ?kept = "filter notNull q"
  have empty: "build_qs q = [] \<longleftrightarrow> ?kept = []"
    by (simp add: build_qs_def toString_empty)
  have sent: "sent (fst (call fetch apiKey data init w))
           = sent w @ [(ROOT @ interpolate (path (descriptor w)) (params data)
                          @ (if ?kept = [] then [] else ''?'' @ build_qs q),
                        request (descriptor w) apiKey data init)]"
    using assms(1) empty by (simp add: sent_call build_fullUrl_def)
  have joined: "build_qs q = join (CHR ''&'')
           (map (\<lambda>(k, v). form_encode k @ ''='' @ form_encode (js_String v)) ?kept)"
    by (simp add: build_qs_def URLSearchParams_toString_def split_def comp_def)
  have parsed: "parse_qs (build_qs q) = map (\<lambda>(k, v). (k, js_String v)) ?kept"
    by (simp add: build_qs_def parse_qs_toString)
  have names: "map fst (parse_qs (build_qs q)) = map fst ?kept"
    by (simp only: parsed map_fst_kept)
  have once: "distinct (map fst (parse_qs (build_qs q)))"
    using assms(2) by (simp only: names distinct_map_filter)
  have which: "set (map fst (parse_qs (build_qs q)))
           = {k. \<exists>v. (k, v) \<in> set q \<and> v \<noteq> PNull \<and> v \<noteq> PUndefined}"
    unfolding names by (force simp add: notNull_def)
  from sent joined parsed once which show ?thesis by blast
qed

theorem call_query_string_witness:
  "query \<lparr>params = [(''opportunity'', ''o1'')],
          query = Value [(''limit'', PNum 50), (''offset'', PUndefined), (''expand'', PStr ''a b&c'')],
          body = Absent\<rparr>
     = Value [(''limit'', PNum 50), (''offset'', PUndefined), (''expand'', PStr ''a b&c'')]
   \<and> distinct (map fst [(''limit'', PNum 50), (''offset'', PUndefined), (''expand'', PStr ''a b&c'')])
   \<and> map fst (sent (fst (call (answer 200 ''OK'' (Some JNull)) ''key''
        \<lparr>params = [(''opportunity'', ''o1'')],
         query = Value [(''limit'', PNum 50), (''offset'', PUndefined), (''expand'', PStr ''a b&c'')],
         body = Absent\<rparr> empty_init (fresh listApplications))))
     = [''https://api.lever.co/v1/opportunities/o1/applications?limit=50&expand=a+b%26c'']
   \<and> parse_qs (build_qs [(''limit'', PNum 50), (''offset'', PUndefined), (''expand'', PStr ''a b&c'')])
     = [(''limit'', ''50''), (''expand'', ''a b&c'')]"
proof -
  let ?q = "[(''limit'', PNum 50), (''offset'', PUndefined), (''expand'', PStr ''a b&c'')]"
  let ?data = "\<lparr>params = [(''opportunity'', ''o1'')], query = Value ?q, body = Absent\<rparr>"
  have h1: "query ?data = Value ?q" by simp
  have h2: "distinct (map fst ?q)" by simp
  have rhs: "map (\<lambda>(k, v). (k, js_String v)) (filter notNull ?q)
      = [(''limit'', ''50''), (''expand'', ''a b&c'')]"
    by code_simp
  have url: "map fst (sent (fst (call (answer 200 ''OK'' (Some JNull)) ''key'' ?data empty_init
        (fresh listApplications))))
      = [''https://api.lever.co/v1/opportunities/o1/applications?limit=50&expand=a+b%26c'']"
    by code_simp
  from call_query_string [OF h1 h2]
  have "parse_qs (build_qs ?q) = map (\<lambda>(k, v). (k, js_String v)) (filter notNull ?q)"
    by blast
  then have "parse_qs (build_qs ?q) = [(''limit'', ''50''), (''expand'', ''a b&c'')]"
    by (simp only: rhs)
  with h1 h2 url show ?thesis by blast
qed

end
